theory Spec2Isabelle
  imports Complex_Main
begin

section \<open>Line-of-sight vectors (decomposition notebook, section 2)\<close>

text \<open>
  The notebooks compute with numpy \<open>float64\<close> arrays.  Throughout this development
  the floating-point numbers are idealised as real numbers: every statement below is
  about exact real arithmetic, and rounding is not modelled.  The one place where
  rounding decides more than the last digits, whether \<^verbatim>\<open>np.linalg.inv\<close> raises
  or returns, is left open: the routine is a parameter.
\<close>

type_synonym LOSVector = "real \<times> real \<times> real"

text \<open>\<^verbatim>\<open>np.radians\<close>: degrees to radians.\<close>

definition radians :: "real \<Rightarrow> real" where
  "radians deg = deg * pi / 180"

text \<open>
  \<^verbatim>\<open>p_asc=np.array([np.cos(asc_azi)*np.sin(asc_inc),-np.sin(asc_azi)*np.sin(asc_inc),-np.cos(asc_inc) ])\<close>
  and the same expression for \<open>p_dsc\<close>: the expression with the two angles as
  parameters.
\<close>

definition compute_los_vector :: "real \<Rightarrow> real \<Rightarrow> LOSVector" where
  "compute_los_vector azi inc = (cos azi * sin inc, - sin azi * sin inc, - cos inc)"

text \<open>Indexing \<open>p[0]\<close>, \<open>p[1]\<close>, \<open>p[2]\<close> of a three-component array.\<close>

definition east :: "LOSVector \<Rightarrow> real" where
  "east p = fst p"

definition north :: "LOSVector \<Rightarrow> real" where
  "north p = fst (snd p)"

definition vertical :: "LOSVector \<Rightarrow> real" where
  "vertical p = snd (snd p)"

definition norm3 :: "LOSVector \<Rightarrow> real" where
  "norm3 p = sqrt ((east p)\<^sup>2 + (north p)\<^sup>2 + (vertical p)\<^sup>2)"

definition asc_azi :: real where "asc_azi = radians 191"
definition asc_inc :: real where "asc_inc = radians 23"
definition dsc_azi :: real where "dsc_azi = radians 348"
definition dsc_inc :: real where "dsc_inc = radians 34"

definition p_asc :: LOSVector where
  "p_asc = compute_los_vector asc_azi asc_inc"

definition p_dsc :: LOSVector where
  "p_dsc = compute_los_vector dsc_azi dsc_inc"


section \<open>numpy operations used by the inversion\<close>

text \<open>
  The exceptions.  \<open>LinAlgError\<close>, \<open>ValueError\<close> and \<open>IndexError\<close> are what numpy
  and Python raise in the notebook's statements.  \<open>DegenerateGeometryError\<close>,
  \<open>DimensionMismatchError\<close> and \<open>InvalidInputError\<close> are the error taxonomy of the
  specification; no statement of the notebooks raises them, and no definition below
  constructs them.
\<close>

datatype error =
    LinAlgError
  | ValueError
  | IndexError
  | DegenerateGeometryError
  | DimensionMismatchError
  | InvalidInputError

text \<open>
  A design matrix is an \<open>N \<times> 2\<close> array, kept as the list of its rows; an observation
  vector is an \<open>N \<times> 1\<close> column, kept as the list of its entries; a decomposed velocity is
  a \<open>2 \<times> 1\<close> column \<open>(u[0,0], u[1,0])\<close>; a \<open>2 \<times> 2\<close> array is the pair of its rows.
\<close>

type_synonym DesignMatrix = "(real \<times> real) list"
type_synonym ObservationVector = "real list"
type_synonym DecomposedVelocity = "real \<times> real"
type_synonym mat22 = "(real \<times> real) \<times> (real \<times> real)"

text \<open>\<^verbatim>\<open>p_hat_asc = np.array([p_asc[0], p_asc[2]])\<close>\<close>

definition p_hat :: "LOSVector \<Rightarrow> real \<times> real" where
  "p_hat p = (east p, vertical p)"

text \<open>
  \<^verbatim>\<open>np.vstack\<close> of a sequence of two-component rows.  numpy raises \<open>ValueError\<close>
  (need at least one array to concatenate) on an empty sequence.
\<close>

definition vstack :: "(real \<times> real) list \<Rightarrow> error + DesignMatrix" where
  "vstack rows = (if rows = [] then Inl ValueError else Inr rows)"

text \<open>\<^verbatim>\<open>P=np.vstack(([p_hat_asc, p_hat_dsc]))\<close>, for any sequence of LOS vectors.\<close>

definition build_design_matrix :: "LOSVector list \<Rightarrow> error + DesignMatrix" where
  "build_design_matrix los_vectors = vstack (map p_hat los_vectors)"

definition P :: DesignMatrix where
  "P = [p_hat p_asc, p_hat p_dsc]"

text \<open>The sum of the products of corresponding entries (one entry of a matrix product).\<close>

definition dot :: "real list \<Rightarrow> real list \<Rightarrow> real" where
  "dot xs ys = sum_list (map2 (*) xs ys)"

text \<open>\<^verbatim>\<open>np.matmul(P.T,P)\<close>: a \<open>2 \<times> N\<close> array times an \<open>N \<times> 2\<close> array; the shapes always agree.\<close>

definition matmul_PT_P :: "DesignMatrix \<Rightarrow> mat22" where
  "matmul_PT_P Pm =
     ((dot (map fst Pm) (map fst Pm), dot (map fst Pm) (map snd Pm)),
      (dot (map snd Pm) (map fst Pm), dot (map snd Pm) (map snd Pm)))"

text \<open>
  \<^verbatim>\<open>np.matmul(P.T,r)\<close>: a \<open>2 \<times> N\<close> array times an \<open>M \<times> 1\<close> column.  numpy raises
  \<open>ValueError\<close> when the inner dimensions differ.
\<close>

definition matmul_PT_r :: "DesignMatrix \<Rightarrow> ObservationVector \<Rightarrow> error + (real \<times> real)" where
  "matmul_PT_r Pm r =
     (if length Pm = length r then Inr (dot (map fst Pm) r, dot (map snd Pm) r)
      else Inl ValueError)"

text \<open>A \<open>2 \<times> 2\<close> array times a \<open>2 \<times> 1\<close> column.\<close>

definition matmul_22_21 :: "mat22 \<Rightarrow> real \<times> real \<Rightarrow> real \<times> real" where
  "matmul_22_21 A v =
     (fst (fst A) * fst v + snd (fst A) * snd v,
      fst (snd A) * fst v + snd (snd A) * snd v)"

text \<open>The determinant of a \<open>2 \<times> 2\<close> array.\<close>

definition det22 :: "mat22 \<Rightarrow> real" where
  "det22 A = fst (fst A) * snd (snd A) - snd (fst A) * fst (snd A)"

text \<open>
  \<^verbatim>\<open>np.linalg.inv\<close> is numpy's routine, not code of the notebooks.  It either raises
  \<open>LinAlgError\<close> (\<open>None\<close> below) or returns a matrix.  In float64 it raises exactly when
  the LU factorisation meets a zero pivot, and exact arithmetic does not decide that: a
  matrix without inverse may be factorised with a tiny pivot and a matrix returned, and
  a matrix with an inverse may be refused.  The routine is therefore a parameter of
  every operation that calls it, and each statement says what it assumes about the
  routine's outcome.
\<close>

type_synonym linalg_inv = "mat22 \<Rightarrow> mat22 option"

text \<open>\<open>B\<close> is an inverse of \<open>A\<close>: the product \<open>B A\<close> is the identity.\<close>

definition is_inverse :: "mat22 \<Rightarrow> mat22 \<Rightarrow> bool" where
  "is_inverse B A \<longleftrightarrow>
     fst (fst B) * fst (fst A) + snd (fst B) * fst (snd A) = 1
     \<and> fst (fst B) * snd (fst A) + snd (fst B) * snd (snd A) = 0
     \<and> fst (snd B) * fst (fst A) + snd (snd B) * fst (snd A) = 0
     \<and> fst (snd B) * snd (fst A) + snd (snd B) * snd (snd A) = 1"

text \<open>
  The two outcomes of the routine, for statements at one concrete matrix: it raised, or
  it returned the matrix \<open>B\<close>.
\<close>

definition raising :: linalg_inv where
  "raising A = None"

definition returning :: "mat22 \<Rightarrow> linalg_inv" where
  "returning B A = Some B"


section \<open>The inversion (decomposition notebook, section 4)\<close>

text \<open>\<^verbatim>\<open>PTPinv=np.linalg.inv(np.matmul(P.T,P))\<close>\<close>

definition PTPinv :: "linalg_inv \<Rightarrow> DesignMatrix \<Rightarrow> error + mat22" where
  "PTPinv linalg_inv Pm =
     (case linalg_inv (matmul_PT_P Pm) of
        None \<Rightarrow> Inl LinAlgError
      | Some Pinv \<Rightarrow> Inr Pinv)"

text \<open>
  The statement of the loop body, \<^verbatim>\<open>u=np.matmul(PTPinv,np.matmul(P.T,r))\<close>, with the
  matrix computed before the loop as its first argument.
\<close>

definition u :: "mat22 \<Rightarrow> DesignMatrix \<Rightarrow> ObservationVector \<Rightarrow> error + DecomposedVelocity" where
  "u Pinv Pm r =
     (case matmul_PT_r Pm r of
        Inl e \<Rightarrow> Inl e
      | Inr v \<Rightarrow> Inr (matmul_22_21 Pinv v))"

text \<open>One target: the inversion, then the loop body once.\<close>

definition decompose :: "linalg_inv \<Rightarrow> DesignMatrix \<Rightarrow> ObservationVector \<Rightarrow> error + DecomposedVelocity" where
  "decompose linalg_inv Pm r =
     (case PTPinv linalg_inv Pm of
        Inl e \<Rightarrow> Inl e
      | Inr Pinv \<Rightarrow> u Pinv Pm r)"

text \<open>
  A \<open>for\<close> loop that collects the value of its body at each element, in order; an
  exception in the body ends the loop.
\<close>

fun for_loop :: "('a \<Rightarrow> error + 'b) \<Rightarrow> 'a list \<Rightarrow> error + 'b list" where
  "for_loop body [] = Inr []"
| "for_loop body (x # xs) =
     (case body x of
        Inl e \<Rightarrow> Inl e
      | Inr y \<Rightarrow> (case for_loop body xs of
                    Inl e \<Rightarrow> Inl e
                  | Inr ys \<Rightarrow> Inr (y # ys)))"

text \<open>
  Many targets: the inversion runs once, before the loop (``which we will use several
  times''), and the loop body runs for each observation vector.
\<close>

definition decompose_many :: "linalg_inv \<Rightarrow> DesignMatrix \<Rightarrow> ObservationVector list \<Rightarrow> error + DecomposedVelocity list" where
  "decompose_many linalg_inv Pm observations =
     (case PTPinv linalg_inv Pm of
        Inl e \<Rightarrow> Inl e
      | Inr Pinv \<Rightarrow> for_loop (u Pinv Pm) observations)"

text \<open>
  The notebook's loop as written:
  \<^verbatim>\<open>
  for i in range(len(r_asc_all)):
      r=np.vstack(([r_asc_all[i]],[r_dsc_all[i]]))
      u=np.matmul(PTPinv,np.matmul(P.T,r))
  \<close>
  Indexing \<open>r_dsc_all[i]\<close> beyond its length raises \<open>IndexError\<close>.
\<close>

definition r_at :: "real list \<Rightarrow> real list \<Rightarrow> nat \<Rightarrow> error + ObservationVector" where
  "r_at r_asc r_dsc i =
     (if i < length r_asc \<and> i < length r_dsc then Inr [r_asc ! i, r_dsc ! i]
      else Inl IndexError)"

definition landslide_loop :: "linalg_inv \<Rightarrow> DesignMatrix \<Rightarrow> real list \<Rightarrow> real list \<Rightarrow> error + DecomposedVelocity list" where
  "landslide_loop linalg_inv Pm r_asc r_dsc =
     (case PTPinv linalg_inv Pm of
        Inl e \<Rightarrow> Inl e
      | Inr Pinv \<Rightarrow>
          for_loop (\<lambda>i. case r_at r_asc r_dsc i of Inl e \<Rightarrow> Inl e | Inr r \<Rightarrow> u Pinv Pm r)
            [0 ..< length r_asc])"

definition r_asc_all :: "real list" where
  "r_asc_all = [-7.2, -4.3, -4.6, -2.8, -12.1]"

definition r_dsc_all :: "real list" where
  "r_dsc_all = [12.2, 2.7, 5.3, 5.0, 12.0]"

text \<open>The forward model \<open>r' = P m\<close> of the notebook's section 3.\<close>

definition forward :: "DesignMatrix \<Rightarrow> DecomposedVelocity \<Rightarrow> ObservationVector" where
  "forward Pm m = map (\<lambda>row. fst row * fst m + snd row * snd m) Pm"

text \<open>
  The specification's reading of the batch operation: \<open>decompose\<close> applied to each
  observation vector independently, the results in the order of the inputs.
\<close>

definition decompose_each :: "linalg_inv \<Rightarrow> DesignMatrix \<Rightarrow> ObservationVector list \<Rightarrow> error + DecomposedVelocity list" where
  "decompose_each linalg_inv Pm observations = for_loop (decompose linalg_inv Pm) observations"

text \<open>Linear combinations of columns.\<close>

definition lincomb :: "real \<Rightarrow> real list \<Rightarrow> real \<Rightarrow> real list \<Rightarrow> real list" where
  "lincomb a xs b ys = map2 (\<lambda>x y. a * x + b * y) xs ys"



section \<open>Reformatting quadtree output (quadtree notebook)\<close>

text \<open>
  One leaf of kite's quadtree, with the attributes the notebook reads:
  \<open>leaf_thetas\<close>, \<open>leaf_phis\<close>, \<open>leaf_means\<close>, and the position of the focal point
  after the conversion to UTM kilometres (the conversion is the \<open>utm\<close> package's).
\<close>

record leaf =
  leaf_theta :: real
  leaf_phi :: real
  leaf_mean :: real
  leaf_xkm :: real
  leaf_ykm :: real

text \<open>
  \<^verbatim>\<open>
  losx=np.cos(qt.leaf_thetas)*-np.cos(qt.leaf_phis)
  losy=np.cos(qt.leaf_thetas)*-np.sin(qt.leaf_phis)
  losz=-np.sin(qt.leaf_thetas)
  \<close>
  elementwise over the leaves.
\<close>

definition losx :: "leaf list \<Rightarrow> real list" where
  "losx qt = map (\<lambda>l. cos (leaf_theta l) * - cos (leaf_phi l)) qt"

definition losy :: "leaf list \<Rightarrow> real list" where
  "losy qt = map (\<lambda>l. cos (leaf_theta l) * - sin (leaf_phi l)) qt"

definition losz :: "leaf list \<Rightarrow> real list" where
  "losz qt = map (\<lambda>l. - sin (leaf_theta l)) qt"

text \<open>\<^verbatim>\<open>dataptid=np.arange(1,losx.size+1)\<close>\<close>

definition dataptid :: "leaf list \<Rightarrow> nat list" where
  "dataptid qt = [1 ..< length (losx qt) + 1]"

text \<open>
  One row of the okinv table: x, y, LOS displacement, the three components of the unit
  LOS vector, and the id.
\<close>

record okinv_row =
  x_coordinate :: real
  y_coordinate :: real
  los_displacement :: real
  unit_los_x :: real
  unit_los_y :: real
  unit_los_z :: real
  row_id :: nat

text \<open>\<^verbatim>\<open>okinv_data=np.column_stack((xkm,ykm,qt.leaf_means,losx,losy,losz,dataptid))\<close>\<close>

definition okinv_data :: "leaf list \<Rightarrow> okinv_row list" where
  "okinv_data qt =
     map (\<lambda>i. \<lparr> x_coordinate = leaf_xkm (qt ! i),
                y_coordinate = leaf_ykm (qt ! i),
                los_displacement = leaf_mean (qt ! i),
                unit_los_x = losx qt ! i,
                unit_los_y = losy qt ! i,
                unit_los_z = losz qt ! i,
                row_id = dataptid qt ! i \<rparr>)
       [0 ..< length qt]"

definition unit_los :: "okinv_row \<Rightarrow> LOSVector" where
  "unit_los row = (unit_los_x row, unit_los_y row, unit_los_z row)"


section \<open>Properties of the line-of-sight vector\<close>

lemma unit_sphere:
  fixes a b :: real
  shows "(cos a * sin b)\<^sup>2 + (sin a * sin b)\<^sup>2 + (cos b)\<^sup>2 = 1"
proof -
  have "(cos a * sin b)\<^sup>2 + (sin a * sin b)\<^sup>2 + (cos b)\<^sup>2
          = ((sin a)\<^sup>2 + (cos a)\<^sup>2) * (sin b)\<^sup>2 + (cos b)\<^sup>2"
    by (simp only: power_mult_distrib distrib_right add.commute)
  also have "\<dots> = (sin b)\<^sup>2 + (cos b)\<^sup>2"
    by (simp only: sin_cos_squared_add mult_1_left)
  also have "\<dots> = 1"
    by (rule sin_cos_squared_add)
  finally show ?thesis .
qed

text \<open>
  Claim C2.  For every azimuth \<open>phi\<close> and incidence \<open>theta\<close> in radians, the
  line-of-sight vector is \<open>[cos phi sin theta, - sin phi sin theta, - cos theta]\<close>: its
  east, north and vertical components are these three expressions.
\<close>

theorem compute_los_vector_formula:
  "compute_los_vector phi theta = (cos phi * sin theta, - sin phi * sin theta, - cos theta)
   \<and> east (compute_los_vector phi theta) = cos phi * sin theta
   \<and> north (compute_los_vector phi theta) = - sin phi * sin theta
   \<and> vertical (compute_los_vector phi theta) = - cos theta"
  by (simp add: compute_los_vector_def east_def north_def vertical_def)

text \<open>
  Claim C5.  For every azimuth and incidence, the line-of-sight vector has Euclidean
  norm exactly 1 over the reals.
\<close>

theorem compute_los_vector_unit_norm: "norm3 (compute_los_vector phi theta) = 1"
  using unit_sphere [of phi theta]
  by (simp add: norm3_def compute_los_vector_def east_def north_def vertical_def power_mult_distrib)

text \<open>
  Claim C6, as stated: for every real azimuth and incidence the vertical component is
  non-positive.  It fails at incidence \<open>pi\<close>, where the vertical component is \<open>1\<close>.
\<close>

theorem vertical_positive_at_pi: "\<not> vertical (compute_los_vector 0 pi) \<le> 0"
  by (simp add: compute_los_vector_def vertical_def)

text \<open>
  Claim C6, amended: for every azimuth and every incidence between \<open>- pi / 2\<close> and
  \<open>pi / 2\<close> (the physical range lies inside), the vertical component is
  \<open>- cos incidence\<close> and is non-positive.
\<close>

theorem vertical_nonpositive:
  "- (pi / 2) \<le> inc \<Longrightarrow> inc \<le> pi / 2 \<Longrightarrow>
     vertical (compute_los_vector azi inc) = - cos inc \<and> vertical (compute_los_vector azi inc) \<le> 0"
  by (simp add: compute_los_vector_def vertical_def cos_ge_zero)

theorem vertical_nonpositive_witness:
  "- (pi / 2) \<le> pi / 3 \<and> pi / 3 \<le> pi / 2 \<and> vertical (compute_los_vector 0 (pi / 3)) = - (1 / 2)
    \<and> vertical (compute_los_vector 0 (pi / 3)) \<le> 0"
proof -
  have lo: "- (pi / 2) \<le> pi / 3" using pi_gt_zero by linarith
  have hi: "pi / 3 \<le> pi / 2" using pi_gt_zero by linarith
  have "vertical (compute_los_vector 0 (pi / 3)) = - (1 / 2)
      \<and> vertical (compute_los_vector 0 (pi / 3)) \<le> 0"
    using vertical_nonpositive [OF lo hi, of 0] by (simp add: cos_60)
  with lo hi show ?thesis
    by blast
qed


section \<open>Properties of the inversion\<close>

lemma is_inverse_left:
  assumes "is_inverse B A"
  shows "matmul_22_21 B (matmul_22_21 A x) = x"
proof -
  obtain b11 b12 b21 b22 where B: "B = ((b11, b12), (b21, b22))"
    by (metis surj_pair)
  obtain a11 a12 a21 a22 where A: "A = ((a11, a12), (a21, a22))"
    by (metis surj_pair)
  obtain x1 x2 where x: "x = (x1, x2)"
    by (metis surj_pair)
  from assms have e: "b11 * a11 + b12 * a21 = 1" "b11 * a12 + b12 * a22 = 0"
      "b21 * a11 + b22 * a21 = 0" "b21 * a12 + b22 * a22 = 1"
    by (simp_all add: is_inverse_def A B)
  have "b11 * (a11 * x1 + a12 * x2) + b12 * (a21 * x1 + a22 * x2)
          = (b11 * a11 + b12 * a21) * x1 + (b11 * a12 + b12 * a22) * x2"
    by (simp add: algebra_simps)
  also have "\<dots> = x1"
    by (simp add: e)
  finally have c1: "b11 * (a11 * x1 + a12 * x2) + b12 * (a21 * x1 + a22 * x2) = x1" .
  have "b21 * (a11 * x1 + a12 * x2) + b22 * (a21 * x1 + a22 * x2)
          = (b21 * a11 + b22 * a21) * x1 + (b21 * a12 + b22 * a22) * x2"
    by (simp add: algebra_simps)
  also have "\<dots> = x2"
    by (simp add: e)
  finally have c2: "b21 * (a11 * x1 + a12 * x2) + b22 * (a21 * x1 + a22 * x2) = x2" .
  show ?thesis
    unfolding A B x matmul_22_21_def fst_conv snd_conv
    using c1 c2 by (simp only:)
qed

lemma is_inverse_det:
  assumes "is_inverse B A"
  shows "det22 A \<noteq> 0"
proof
  assume z: "det22 A = 0"
  obtain b11 b12 b21 b22 where B: "B = ((b11, b12), (b21, b22))"
    by (metis surj_pair)
  obtain a11 a12 a21 a22 where A: "A = ((a11, a12), (a21, a22))"
    by (metis surj_pair)
  from assms have e: "b11 * a11 + b12 * a21 = 1" "b11 * a12 + b12 * a22 = 0"
      "b21 * a11 + b22 * a21 = 0" "b21 * a12 + b22 * a22 = 1"
    by (simp_all add: is_inverse_def A B)
  have "(b11 * a11 + b12 * a21) * (b21 * a12 + b22 * a22)
          - (b11 * a12 + b12 * a22) * (b21 * a11 + b22 * a21)
        = (b11 * b22 - b12 * b21) * (a11 * a22 - a12 * a21)"
    by (simp add: algebra_simps)
  moreover have "a11 * a22 - a12 * a21 = 0"
    using z by (simp add: det22_def A)
  ultimately show False
    by (simp add: e)
qed

lemma inverse_exists:
  assumes "det22 A \<noteq> 0"
  shows "\<exists>B. is_inverse B A"
proof -
  obtain p q s t where A: "A = ((p, q), (s, t))"
    by (metis surj_pair)
  define D where "D = p * t - q * s"
  have D: "D \<noteq> 0"
    using assms by (simp add: det22_def A D_def)
  have "t / D * p + - q / D * s = (t * p - q * s) / D"
    by (simp add: diff_divide_distrib)
  also have "t * p - q * s = D"
    by (simp add: D_def algebra_simps)
  finally have e1: "t / D * p + - q / D * s = 1"
    using D by simp
  have "t / D * q + - q / D * t = (t * q - q * t) / D"
    by (simp add: diff_divide_distrib)
  then have e2: "t / D * q + - q / D * t = 0"
    by simp
  have "- s / D * p + p / D * s = (p * s - s * p) / D"
    by (simp add: diff_divide_distrib)
  then have e3: "- s / D * p + p / D * s = 0"
    by simp
  have "- s / D * q + p / D * t = (p * t - s * q) / D"
    by (simp add: diff_divide_distrib)
  also have "p * t - s * q = D"
    by (simp add: D_def algebra_simps)
  finally have e4: "- s / D * q + p / D * t = 1"
    using D by simp
  have "is_inverse ((t / D, - q / D), (- s / D, p / D)) ((p, q), (s, t))"
    unfolding is_inverse_def fst_conv snd_conv
    using e1 e2 e3 e4 by (simp only: simp_thms)
  then show ?thesis
    unfolding A by blast
qed

lemma dot_Nil [simp]: "dot [] ys = 0"
  by (simp add: dot_def)

lemma dot_Cons [simp]: "dot (x # xs) (y # ys) = x * y + dot xs ys"
  by (simp add: dot_def)

lemma dot_Nil2 [simp]: "dot xs [] = 0"
  by (simp add: dot_def)

lemma dot_forward:
  "dot (map f Pm) (forward Pm m)
     = dot (map f Pm) (map fst Pm) * fst m + dot (map f Pm) (map snd Pm) * snd m"
  by (induction Pm) (simp_all add: forward_def algebra_simps)

lemma length_forward [simp]: "length (forward Pm m) = length Pm"
  by (simp add: forward_def)

lemma matmul_PT_r_forward:
  "matmul_PT_r Pm (forward Pm m) = Inr (matmul_22_21 (matmul_PT_P Pm) m)"
  by (simp add: matmul_PT_r_def matmul_22_21_def matmul_PT_P_def dot_forward)

lemma PTPinv_Some: "linalg_inv (matmul_PT_P Pm) = Some Pinv \<Longrightarrow> PTPinv linalg_inv Pm = Inr Pinv"
  by (simp add: PTPinv_def)

lemma PTPinv_None: "linalg_inv (matmul_PT_P Pm) = None \<Longrightarrow> PTPinv linalg_inv Pm = Inl LinAlgError"
  by (simp add: PTPinv_def)

lemma decompose_eq_u:
  "linalg_inv (matmul_PT_P Pm) = Some Pinv \<Longrightarrow> decompose linalg_inv Pm r = u Pinv Pm r"
  by (simp add: decompose_def PTPinv_def)

lemma decompose_None:
  "linalg_inv (matmul_PT_P Pm) = None \<Longrightarrow> decompose linalg_inv Pm r = Inl LinAlgError"
  by (simp add: decompose_def PTPinv_def)

lemma decompose_many_None:
  "linalg_inv (matmul_PT_P Pm) = None \<Longrightarrow> decompose_many linalg_inv Pm observations = Inl LinAlgError"
  by (simp add: decompose_many_def PTPinv_def)

lemma u_forward:
  assumes "is_inverse Pinv (matmul_PT_P Pm)"
  shows "u Pinv Pm (forward Pm m) = Inr m"
  using is_inverse_left [OF assms, of m] by (simp add: u_def matmul_PT_r_forward)

lemma det_PT_P_two: "det22 (matmul_PT_P [(a, b), (c, d)]) = (a * d - b * c)\<^sup>2"
  by (simp add: matmul_PT_P_def det22_def power2_eq_square algebra_simps)

lemma forward_two:
  assumes "a * d - b * c \<noteq> 0"
  shows "forward [(a, b), (c, d)]
           ((d * r1 - b * r2) / (a * d - b * c), (a * r2 - c * r1) / (a * d - b * c)) = [r1, r2]"
proof -
  define D where "D = a * d - b * c"
  have D: "D \<noteq> 0" using assms by (simp add: D_def)
  have "a * ((d * r1 - b * r2) / D) + b * ((a * r2 - c * r1) / D)
          = (a * (d * r1 - b * r2) + b * (a * r2 - c * r1)) / D"
    by (simp add: add_divide_distrib)
  also have "a * (d * r1 - b * r2) + b * (a * r2 - c * r1) = r1 * D"
    by (simp add: D_def algebra_simps)
  finally have f1: "a * ((d * r1 - b * r2) / D) + b * ((a * r2 - c * r1) / D) = r1"
    using D by simp
  have "c * ((d * r1 - b * r2) / D) + d * ((a * r2 - c * r1) / D)
          = (c * (d * r1 - b * r2) + d * (a * r2 - c * r1)) / D"
    by (simp add: add_divide_distrib)
  also have "c * (d * r1 - b * r2) + d * (a * r2 - c * r1) = r2 * D"
    by (simp add: D_def algebra_simps)
  finally have f2: "c * ((d * r1 - b * r2) / D) + d * ((a * r2 - c * r1) / D) = r2"
    using D by simp
  have "forward [(a, b), (c, d)] ((d * r1 - b * r2) / D, (a * r2 - c * r1) / D) = [r1, r2]"
    using f1 f2 by (simp add: forward_def)
  then show ?thesis
    by (simp only: D_def)
qed

lemma independent_rows:
  assumes "is_inverse Pinv (matmul_PT_P [(a, b), (c, d)])"
  shows "a * d - b * c \<noteq> 0"
  using is_inverse_det [OF assms] by (simp add: det_PT_P_two)

lemma u_two:
  assumes "is_inverse Pinv (matmul_PT_P [(a, b), (c, d)])"
  shows "u Pinv [(a, b), (c, d)] [r1, r2]
           = Inr ((d * r1 - b * r2) / (a * d - b * c), (a * r2 - c * r1) / (a * d - b * c))"
proof -
  have "u Pinv [(a, b), (c, d)]
          (forward [(a, b), (c, d)]
            ((d * r1 - b * r2) / (a * d - b * c), (a * r2 - c * r1) / (a * d - b * c)))
        = Inr ((d * r1 - b * r2) / (a * d - b * c), (a * r2 - c * r1) / (a * d - b * c))"
    using assms by (rule u_forward)
  then show ?thesis
    by (simp only: forward_two [OF independent_rows [OF assms]])
qed




lemma length_lincomb [simp]:
  "length (lincomb a xs b ys) = min (length xs) (length ys)"
  by (simp add: lincomb_def)





lemma for_loop_cong:
  "(\<And>x. x \<in> set xs \<Longrightarrow> f x = g x) \<Longrightarrow> for_loop f xs = for_loop g xs"
proof (induction xs)
  case Nil
  show ?case by simp
next
  case (Cons a xs)
  have head: "f a = g a"
    by (rule Cons.prems) simp
  have tail: "for_loop f xs = for_loop g xs"
    by (rule Cons.IH) (simp add: Cons.prems)
  show ?case
    by (simp only: for_loop.simps head tail)
qed

lemma for_loop_Inr:
  "for_loop body xs = Inr ys \<Longrightarrow>
     length ys = length xs \<and> (\<forall>i<length xs. body (xs ! i) = Inr (ys ! i))"
proof (induction xs arbitrary: ys)
  case Nil
  then show ?case by simp
next
  case (Cons x xs)
  from Cons.prems obtain y ys' where y: "body x = Inr y" and ys': "for_loop body xs = Inr ys'"
    and ys: "ys = y # ys'"
    by (auto split: sum.splits)
  from Cons.IH [OF ys'] have len: "length ys' = length xs"
    and nth: "\<forall>i<length xs. body (xs ! i) = Inr (ys' ! i)"
    by simp_all
  show ?case
  proof (intro conjI allI impI)
    show "length ys = length (x # xs)"
      by (simp add: ys len)
  next
    fix i assume "i < length (x # xs)"
    then show "body ((x # xs) ! i) = Inr (ys ! i)"
      using y nth by (cases i) (simp_all add: ys)
  qed
qed

lemma for_loop_Inl:
  "for_loop body xs = Inl e \<Longrightarrow> \<exists>x\<in>set xs. body x = Inl e"
  by (induction xs) (auto split: sum.splits)

lemma u_error: "u Pinv Pm r = Inl e \<Longrightarrow> e = ValueError"
  by (auto simp: u_def matmul_PT_r_def split: if_splits)

lemma decompose_error:
  "decompose linalg_inv Pm r = Inl e \<Longrightarrow> e = LinAlgError \<or> e = ValueError"
  by (auto simp: decompose_def PTPinv_def dest: u_error split: option.splits)

lemma decompose_many_error:
  "decompose_many linalg_inv Pm observations = Inl e \<Longrightarrow> e = LinAlgError \<or> e = ValueError"
  by (auto simp: decompose_many_def PTPinv_def dest!: for_loop_Inl u_error split: option.splits)

lemma decompose_many_each:
  assumes "observations \<noteq> [] \<or> linalg_inv (matmul_PT_P Pm) \<noteq> None"
  shows "decompose_many linalg_inv Pm observations = decompose_each linalg_inv Pm observations"
proof (cases "linalg_inv (matmul_PT_P Pm)")
  case None
  with assms obtain r rs where obs: "observations = r # rs"
    by (cases observations) auto
  have "decompose linalg_inv Pm r = Inl LinAlgError"
    using None by (rule decompose_None)
  then have "decompose_each linalg_inv Pm observations = Inl LinAlgError"
    by (simp add: decompose_each_def obs)
  then show ?thesis
    using None by (simp add: decompose_many_None)
next
  case (Some Pinv)
  have "for_loop (u Pinv Pm) observations = for_loop (decompose linalg_inv Pm) observations"
    by (rule for_loop_cong) (simp add: decompose_eq_u [of linalg_inv _ Pinv, OF Some])
  then show ?thesis
    by (simp add: decompose_many_def decompose_each_def PTPinv_def Some)
qed



text \<open>
  Claim C8, as stated: for every design matrix and every sequence of observation
  vectors the batch result equals the sequence of the single decompositions.  It fails
  for the rows \<open>(1, 2)\<close>, \<open>(1, 2)\<close> and the empty sequence: \<open>P\<^sup>T P\<close> is \<open>[[2, 4], [4, 8]]\<close>,
  the inversion runs before the loop and raises (the second pivot \<open>4 - 0.5 \<times> 8\<close> is
  exactly zero), while there is no single decomposition to raise.
\<close>

theorem decompose_many_empty_raising:
  "det22 (matmul_PT_P [(1, 2), (1, 2)]) = 0
   \<and> decompose_many raising [(1, 2), (1, 2)] [] = Inl LinAlgError
   \<and> decompose_each raising [(1, 2), (1, 2)] [] = Inr []
   \<and> decompose_many raising [(1, 2), (1, 2)] [] \<noteq> decompose_each raising [(1, 2), (1, 2)] []"
  by (simp add: decompose_many_def decompose_each_def PTPinv_def raising_def matmul_PT_P_def det22_def)

text \<open>
  Claim C8, amended: for every design matrix and every sequence of observation vectors
  that is non-empty or comes with an inversion of \<open>P\<^sup>T P\<close> that succeeds, the batch result
  equals \<open>decompose\<close> applied to each observation vector in turn; when it is a list of
  velocities, that list has the length of the input, its \<open>i\<close>-th entry is the
  decomposition of the \<open>i\<close>-th observation vector, and every entry is computed with the
  one matrix that the inversion returned before the loop.
\<close>

theorem decompose_many_refines:
  assumes "observations \<noteq> [] \<or> linalg_inv (matmul_PT_P Pm) \<noteq> None"
  shows "decompose_many linalg_inv Pm observations = decompose_each linalg_inv Pm observations
         \<and> (\<forall>us. decompose_many linalg_inv Pm observations = Inr us \<longrightarrow>
               length us = length observations
               \<and> (\<exists>Pinv. linalg_inv (matmul_PT_P Pm) = Some Pinv
                     \<and> (\<forall>i<length observations.
                           u Pinv Pm (observations ! i) = Inr (us ! i)
                           \<and> decompose linalg_inv Pm (observations ! i) = Inr (us ! i))))"
proof (intro conjI allI impI)
  show "decompose_many linalg_inv Pm observations = decompose_each linalg_inv Pm observations"
    using assms by (rule decompose_many_each)
next
  fix us assume ok: "decompose_many linalg_inv Pm observations = Inr us"
  then obtain Pinv where Pinv: "linalg_inv (matmul_PT_P Pm) = Some Pinv"
    and loop: "for_loop (u Pinv Pm) observations = Inr us"
    by (auto simp: decompose_many_def PTPinv_def split: option.splits)
  from for_loop_Inr [OF loop] show "length us = length observations"
    by simp
  from for_loop_Inr [OF loop]
  have "\<forall>i<length observations. u Pinv Pm (observations ! i) = Inr (us ! i)
          \<and> decompose linalg_inv Pm (observations ! i) = Inr (us ! i)"
    by (simp add: decompose_eq_u [of linalg_inv _ Pinv, OF Pinv])
  with Pinv show "\<exists>Pinv. linalg_inv (matmul_PT_P Pm) = Some Pinv
                     \<and> (\<forall>i<length observations.
                           u Pinv Pm (observations ! i) = Inr (us ! i)
                           \<and> decompose linalg_inv Pm (observations ! i) = Inr (us ! i))"
    by blast
qed

theorem decompose_many_refines_witness:
  "[[17, 39], [1, 3]] \<noteq> ([] :: real list list)
   \<and> decompose_many (returning ((5, - 7 / 2), (- 7 / 2, 5 / 2))) [(1, 2), (3, 4)] [[17, 39], [1, 3]]
       = Inr [(5, 6), (1, 0)]
   \<and> decompose_each (returning ((5, - 7 / 2), (- 7 / 2, 5 / 2))) [(1, 2), (3, 4)] [[17, 39], [1, 3]]
       = Inr [(5, 6), (1, 0)]"
proof -
  define B :: mat22 where "B = ((5, - 7 / 2), (- 7 / 2, 5 / 2))"
  have h: "[[17, 39], [1, 3]] \<noteq> [] \<or> returning B (matmul_PT_P [(1, 2), (3, 4)]) \<noteq> None"
    by simp
  have e: "decompose_each (returning B) [(1, 2), (3, 4)] [[17, 39], [1, 3]] = Inr [(5, 6), (1, 0)]"
    by (simp add: decompose_each_def decompose_def PTPinv_def returning_def u_def matmul_PT_r_def
        matmul_22_21_def B_def)
  have "decompose_many (returning B) [(1, 2), (3, 4)] [[17, 39], [1, 3]]
          = decompose_each (returning B) [(1, 2), (3, 4)] [[17, 39], [1, 3]]"
    using decompose_many_refines [of "[[17, 39], [1, 3]]" "returning B" "[(1, 2), (3, 4)]", OF h] by blast
  with e show ?thesis
    unfolding B_def by simp
qed

lemma dot_two: "dot [x1, x2] [y1, y2] = x1 * y1 + x2 * y2"
  by simp

text \<open>
  Claim C3, as stated: two parallel or identical line-of-sight vectors make
  \<open>build_design_matrix\<close> or \<open>decompose\<close> raise \<open>DegenerateGeometryError\<close>.  For two
  identical vectors the matrix is built without complaint, and for the rows \<open>(1, 0)\<close>,
  \<open>(1, 0)\<close> the inversion of \<open>P\<^sup>T P = [[2, 0], [0, 0]]\<close> raises numpy's \<open>LinAlgError\<close>.
\<close>

theorem parallel_rows_no_DegenerateGeometryError:
  "build_design_matrix [compute_los_vector 0 (pi / 2), compute_los_vector 0 (pi / 2)] = Inr [(1, 0), (1, 0)]
   \<and> det22 (matmul_PT_P [(1, 0), (1, 0)]) = 0
   \<and> decompose raising [(1, 0), (1, 0)] [1, 1] = Inl LinAlgError
   \<and> build_design_matrix [compute_los_vector 0 (pi / 2), compute_los_vector 0 (pi / 2)]
        \<noteq> Inl DegenerateGeometryError
   \<and> decompose raising [(1, 0), (1, 0)] [1, 1] \<noteq> Inl DegenerateGeometryError"
  by (simp add: build_design_matrix_def vstack_def p_hat_def compute_los_vector_def east_def
      vertical_def decompose_def PTPinv_def raising_def matmul_PT_P_def det22_def)

text \<open>
  Claim C3, amended: when the east and vertical components of two line-of-sight vectors
  are linearly dependent, nothing checks the geometry.  The design matrix is built;
  \<open>P\<^sup>T P\<close> has no inverse; \<open>decompose\<close> and \<open>decompose_many\<close> never raise
  \<open>DegenerateGeometryError\<close>; they raise \<open>LinAlgError\<close> when \<^verbatim>\<open>np.linalg.inv\<close> itself
  raises, and when it returns a matrix \<open>B\<close> (which is then no inverse) \<open>decompose\<close>
  returns the numeric pair \<open>B (P\<^sup>T r)\<close>.
\<close>

theorem dependent_rows_unchecked:
  assumes "east l1 * vertical l2 - vertical l1 * east l2 = 0"
  shows "build_design_matrix [l1, l2] = Inr [p_hat l1, p_hat l2]
         \<and> \<not> is_inverse B (matmul_PT_P [p_hat l1, p_hat l2])
         \<and> decompose linalg_inv [p_hat l1, p_hat l2] r \<noteq> Inl DegenerateGeometryError
         \<and> decompose_many linalg_inv [p_hat l1, p_hat l2] observations \<noteq> Inl DegenerateGeometryError
         \<and> (linalg_inv (matmul_PT_P [p_hat l1, p_hat l2]) = None \<longrightarrow>
              decompose linalg_inv [p_hat l1, p_hat l2] r = Inl LinAlgError
              \<and> decompose_many linalg_inv [p_hat l1, p_hat l2] observations = Inl LinAlgError)
         \<and> (linalg_inv (matmul_PT_P [p_hat l1, p_hat l2]) = Some B \<longrightarrow>
              decompose linalg_inv [p_hat l1, p_hat l2] [r1, r2]
                = Inr (matmul_22_21 B (east l1 * r1 + east l2 * r2, vertical l1 * r1 + vertical l2 * r2)))"
proof (intro conjI impI)
  show "build_design_matrix [l1, l2] = Inr [p_hat l1, p_hat l2]"
    by (simp add: build_design_matrix_def vstack_def)
next
  have "det22 (matmul_PT_P [(east l1, vertical l1), (east l2, vertical l2)])
          = (east l1 * vertical l2 - vertical l1 * east l2)\<^sup>2"
    by (rule det_PT_P_two)
  then have "det22 (matmul_PT_P [p_hat l1, p_hat l2]) = 0"
    using assms by (simp add: p_hat_def)
  then show "\<not> is_inverse B (matmul_PT_P [p_hat l1, p_hat l2])"
    using is_inverse_det [of B "matmul_PT_P [p_hat l1, p_hat l2]"] by blast
next
  show "decompose linalg_inv [p_hat l1, p_hat l2] r \<noteq> Inl DegenerateGeometryError"
    using decompose_error [of linalg_inv "[p_hat l1, p_hat l2]" r DegenerateGeometryError] by auto
next
  show "decompose_many linalg_inv [p_hat l1, p_hat l2] observations \<noteq> Inl DegenerateGeometryError"
    using decompose_many_error [of linalg_inv "[p_hat l1, p_hat l2]" observations DegenerateGeometryError]
    by auto
next
  assume "linalg_inv (matmul_PT_P [p_hat l1, p_hat l2]) = None"
  then show "decompose linalg_inv [p_hat l1, p_hat l2] r = Inl LinAlgError"
    by (rule decompose_None)
next
  assume "linalg_inv (matmul_PT_P [p_hat l1, p_hat l2]) = None"
  then show "decompose_many linalg_inv [p_hat l1, p_hat l2] observations = Inl LinAlgError"
    by (rule decompose_many_None)
next
  assume "linalg_inv (matmul_PT_P [p_hat l1, p_hat l2]) = Some B"
  then show "decompose linalg_inv [p_hat l1, p_hat l2] [r1, r2]
               = Inr (matmul_22_21 B (east l1 * r1 + east l2 * r2, vertical l1 * r1 + vertical l2 * r2))"
    by (simp add: decompose_def PTPinv_def u_def matmul_PT_r_def p_hat_def)
qed

theorem dependent_rows_unchecked_witness:
  "east (1, 0, 0) * vertical (1, 0, 0) - vertical (1, 0, 0) * east (1, 0, 0) = (0::real)
   \<and> raising (matmul_PT_P [(1, 0), (1, 0)]) = None
   \<and> build_design_matrix [(1, 0, 0), (1, 0, 0)] = Inr [(1, 0), (1, 0)]
   \<and> decompose raising [(1, 0), (1, 0)] [1, 2] = Inl LinAlgError
   \<and> decompose_many raising [(1, 0), (1, 0)] [[1, 2]] = Inl LinAlgError
   \<and> east (3 / 5, 0, - (4 / 5)) * vertical (3 / 5, 0, - (4 / 5))
       - vertical (3 / 5, 0, - (4 / 5)) * east (3 / 5, 0, - (4 / 5)) = (0::real)
   \<and> returning ((1, 2), (3, 4)) (matmul_PT_P [(3 / 5, - (4 / 5)), (3 / 5, - (4 / 5))])
       = Some ((1, 2), (3, 4))
   \<and> decompose (returning ((1, 2), (3, 4))) [(3 / 5, - (4 / 5)), (3 / 5, - (4 / 5))] [1, 2]
       = Inr (- 3, - (21 / 5))"
proof -
  define l :: LOSVector where "l = (1, 0, 0)"
  define k :: LOSVector where "k = (3 / 5, 0, - (4 / 5))"
  define B :: mat22 where "B = ((1, 2), (3, 4))"
  have hl: "east l * vertical l - vertical l * east l = 0"
    and hk: "east k * vertical k - vertical k * east k = 0"
    by simp_all
  have pl: "p_hat l = (1, 0)" and pk: "p_hat k = (3 / 5, - (4 / 5))"
    by (simp_all add: p_hat_def east_def vertical_def l_def k_def)
  have n: "raising (matmul_PT_P [p_hat l, p_hat l]) = None"
    by (simp add: raising_def)
  have s: "returning B (matmul_PT_P [p_hat k, p_hat k]) = Some B"
    by (simp add: returning_def)
  have t1: "build_design_matrix [l, l] = Inr [p_hat l, p_hat l]
      \<and> decompose raising [p_hat l, p_hat l] [1, 2] = Inl LinAlgError
      \<and> decompose_many raising [p_hat l, p_hat l] [[1, 2]] = Inl LinAlgError"
    using dependent_rows_unchecked [of l l B raising "[1, 2]" "[[1, 2]]" 1 2, OF hl] n by blast
  have t2: "decompose (returning B) [p_hat k, p_hat k] [1, 2]
              = Inr (matmul_22_21 B (east k * 1 + east k * 2, vertical k * 1 + vertical k * 2))"
    using dependent_rows_unchecked [of k k B "returning B" "[1, 2]" "[[1, 2]]" 1 2, OF hk] s by blast
  have v: "matmul_22_21 B (east k * 1 + east k * 2, vertical k * 1 + vertical k * 2) = (- 3, - (21 / 5))"
    by (simp add: matmul_22_21_def B_def east_def vertical_def k_def)
  from hl hk n s t1 t2 show ?thesis
    unfolding v pl pk unfolding l_def k_def B_def by blast
qed

text \<open>
  Claim C7, as stated: a length mismatch raises \<open>DimensionMismatchError\<close> and an empty
  input raises \<open>InvalidInputError\<close>, both before computing.  The code validates
  nothing: with the identity as design matrix and one observation the matrix product
  raises \<open>ValueError\<close>; with empty inputs \<open>P\<^sup>T P\<close> is the zero matrix and the inversion
  raises \<open>LinAlgError\<close>; with the rows \<open>(1, 2)\<close>, \<open>(1, 2)\<close> the inversion raises
  \<open>LinAlgError\<close> whatever the length of the observations.
\<close>

theorem no_validation_errors:
  "is_inverse ((1, 0), (0, 1)) (matmul_PT_P [(1, 0), (0, 1)])
   \<and> decompose (returning ((1, 0), (0, 1))) [(1, 0), (0, 1)] [1] = Inl ValueError
   \<and> decompose (returning ((1, 0), (0, 1))) [(1, 0), (0, 1)] [1] \<noteq> Inl DimensionMismatchError
   \<and> matmul_PT_P [] = ((0, 0), (0, 0))
   \<and> decompose raising [] [] = Inl LinAlgError
   \<and> decompose raising [] [] \<noteq> Inl InvalidInputError
   \<and> det22 (matmul_PT_P [(1, 2), (1, 2)]) = 0
   \<and> decompose raising [(1, 2), (1, 2)] [1] = Inl LinAlgError
   \<and> build_design_matrix [] = Inl ValueError"
  by (simp add: decompose_def PTPinv_def raising_def returning_def is_inverse_def matmul_PT_P_def
      det22_def u_def matmul_PT_r_def build_design_matrix_def vstack_def)

text \<open>
  Claim C7, amended: \<open>decompose\<close> validates nothing and raises neither
  \<open>DimensionMismatchError\<close> nor \<open>InvalidInputError\<close>.  When the observation vector's
  length differs from the design matrix's row count (as when exactly one of them is
  empty), no velocity is returned: \<open>LinAlgError\<close> if \<^verbatim>\<open>np.linalg.inv\<close> raised on
  \<open>P\<^sup>T P\<close>, and otherwise \<open>ValueError\<close> from the product \<open>P\<^sup>T r\<close>.  For an empty design
  matrix \<open>P\<^sup>T P\<close> is the zero matrix, and with the inversion raising on it no velocity is
  returned either.  Stacking zero line-of-sight vectors raises \<open>ValueError\<close>.
\<close>

theorem decompose_bad_input_raises:
  "(length r \<noteq> length Pm \<longrightarrow>
      decompose linalg_inv Pm r
        = Inl (case linalg_inv (matmul_PT_P Pm) of None \<Rightarrow> LinAlgError | Some Pinv \<Rightarrow> ValueError))
   \<and> (linalg_inv ((0, 0), (0, 0)) = None \<longrightarrow> decompose linalg_inv [] r = Inl LinAlgError)
   \<and> decompose linalg_inv Pm r \<noteq> Inl DimensionMismatchError
   \<and> decompose linalg_inv Pm r \<noteq> Inl InvalidInputError
   \<and> build_design_matrix [] = Inl ValueError"
proof (intro conjI impI)
  assume "length r \<noteq> length Pm"
  then show "decompose linalg_inv Pm r
        = Inl (case linalg_inv (matmul_PT_P Pm) of None \<Rightarrow> LinAlgError | Some Pinv \<Rightarrow> ValueError)"
    by (auto simp: decompose_def PTPinv_def u_def matmul_PT_r_def split: option.splits)
next
  assume "linalg_inv ((0, 0), (0, 0)) = None"
  then show "decompose linalg_inv [] r = Inl LinAlgError"
    by (simp add: decompose_def PTPinv_def matmul_PT_P_def)
next
  show "decompose linalg_inv Pm r \<noteq> Inl DimensionMismatchError"
    using decompose_error [of linalg_inv Pm r DimensionMismatchError] by auto
next
  show "decompose linalg_inv Pm r \<noteq> Inl InvalidInputError"
    using decompose_error [of linalg_inv Pm r InvalidInputError] by auto
next
  show "build_design_matrix [] = Inl ValueError"
    by (simp add: build_design_matrix_def vstack_def)
qed

theorem decompose_bad_input_raises_witness:
  "length [1::real] \<noteq> length [(1::real, 0::real), (0, 1)]
   \<and> decompose (returning ((1, 0), (0, 1))) [(1, 0), (0, 1)] [1] = Inl ValueError
   \<and> length [1::real] \<noteq> length [(1::real, 2::real), (1, 2)]
   \<and> decompose raising [(1, 2), (1, 2)] [1] = Inl LinAlgError
   \<and> raising ((0, 0), (0, 0)) = None
   \<and> decompose raising [] [1] = Inl LinAlgError"
proof -
  have h: "length [1::real] \<noteq> length [(1::real, 0::real), (0, 1)]"
    and h': "length [1::real] \<noteq> length [(1::real, 2::real), (1, 2)]"
    by simp_all
  have z: "raising ((0, 0), (0, 0)) = None"
    by (simp add: raising_def)
  have a: "decompose (returning ((1, 0), (0, 1))) [(1, 0), (0, 1)] [1] = Inl ValueError"
    using decompose_bad_input_raises [of "[1]" "[(1, 0), (0, 1)]" "returning ((1, 0), (0, 1))"] h
    by (simp add: returning_def)
  have b: "decompose raising [(1, 2), (1, 2)] [1] = Inl LinAlgError"
    using decompose_bad_input_raises [of "[1]" "[(1, 2), (1, 2)]" raising] h'
    by (simp add: raising_def)
  have c: "decompose raising [] [1] = Inl LinAlgError"
    using decompose_bad_input_raises [of "[1]" "[]" raising] z by blast
  from h h' a b z c show ?thesis
    by blast
qed


section \<open>Properties of the quadtree reformatting\<close>

lemma unit_sphere_kite:
  fixes theta phi :: real
  shows "(cos theta * - cos phi)\<^sup>2 + (cos theta * - sin phi)\<^sup>2 + (- sin theta)\<^sup>2 = 1"
proof -
  have "(cos theta * - cos phi)\<^sup>2 + (cos theta * - sin phi)\<^sup>2 + (- sin theta)\<^sup>2
          = (cos theta)\<^sup>2 * ((cos phi)\<^sup>2 + (sin phi)\<^sup>2) + (sin theta)\<^sup>2"
    by algebra
  also have "\<dots> = 1"
    by simp
  finally show ?thesis .
qed

lemma length_okinv_data [simp]: "length (okinv_data qt) = length qt"
  by (simp add: okinv_data_def)

lemma unit_los_okinv_data:
  "i < length qt \<Longrightarrow>
     unit_los (okinv_data qt ! i)
       = (cos (leaf_theta (qt ! i)) * - cos (leaf_phi (qt ! i)),
          cos (leaf_theta (qt ! i)) * - sin (leaf_phi (qt ! i)),
          - sin (leaf_theta (qt ! i)))"
  by (simp add: okinv_data_def unit_los_def losx_def losy_def losz_def)

text \<open>
  Claim C10.  For every incidence \<open>theta\<close> and azimuth \<open>phi\<close> in kite's convention, the
  vector \<open>[cos theta (- cos phi), cos theta (- sin phi), - sin theta]\<close> has Euclidean norm
  exactly 1 over the reals, and so has the unit-LOS triple of every row of the okinv
  table.
\<close>

theorem okinv_unit_los_norm:
  "norm3 (cos theta * - cos phi, cos theta * - sin phi, - sin theta) = 1
   \<and> map (\<lambda>row. norm3 (unit_los row)) (okinv_data qt) = replicate (length qt) 1"
proof
  show n: "norm3 (cos theta * - cos phi, cos theta * - sin phi, - sin theta) = 1" for theta phi :: real
    using unit_sphere_kite [of theta phi]
    by (simp only: norm3_def east_def north_def vertical_def fst_conv snd_conv real_sqrt_one)
  show "map (\<lambda>row. norm3 (unit_los row)) (okinv_data qt) = replicate (length qt) 1"
    by (rule nth_equalityI) (simp_all add: unit_los_okinv_data n del: mult_minus_right)
qed


section \<open>The Berkeley landslides scenario\<close>

subsection \<open>Bounds on sine, cosine and pi\<close>

lemma sin_sum7:
  fixes x :: real
  shows "(\<Sum>m<7. sin_coeff m * x ^ m) = x - x ^ 3 / 6 + x ^ 5 / 120"
  by (simp add: eval_nat_numeral sin_coeff_Suc cos_coeff_Suc)

lemma cos_sum8:
  fixes x :: real
  shows "(\<Sum>m<8. cos_coeff m * x ^ m) = 1 - x ^ 2 / 2 + x ^ 4 / 24 - x ^ 6 / 720"
  by (simp add: eval_nat_numeral sin_coeff_Suc cos_coeff_Suc)

lemma fact_7: "fact 7 = (5040::real)"
  by (simp add: fact_numeral)

lemma fact_8: "fact 8 = (40320::real)"
  by (simp add: fact_numeral)

lemma sin_taylor:
  fixes x :: real
  shows "\<bar>sin x - (x - x ^ 3 / 6 + x ^ 5 / 120)\<bar> \<le> \<bar>x\<bar> ^ 7 / 5040"
proof -
  have "\<bar>sin x - (\<Sum>m<7. sin_coeff m * x ^ m)\<bar> \<le> inverse (fact 7) * \<bar>x\<bar> ^ 7"
    by (rule Maclaurin_sin_bound)
  also have "inverse (fact 7) * \<bar>x\<bar> ^ 7 = \<bar>x\<bar> ^ 7 / 5040"
    by (simp only: fact_7 divide_inverse mult.commute)
  finally show ?thesis
    by (simp only: sin_sum7)
qed

lemma cos_taylor:
  fixes x :: real
  shows "\<bar>cos x - (1 - x ^ 2 / 2 + x ^ 4 / 24 - x ^ 6 / 720)\<bar> \<le> \<bar>x\<bar> ^ 8 / 40320"
proof -
  obtain t where "cos x = (\<Sum>m<8. cos_coeff m * x ^ m) + (cos (t + 1/2 * real 8 * pi) / fact 8) * x ^ 8"
    using Maclaurin_cos_expansion [of x 8] by blast
  then have e: "cos x = (1 - x ^ 2 / 2 + x ^ 4 / 24 - x ^ 6 / 720)
                       + (cos (t + 1/2 * real 8 * pi) / 40320) * x ^ 8"
    by (simp only: cos_sum8 fact_8)
  define c where "c = cos (t + 1/2 * real 8 * pi)"
  define rem where "rem = cos x - (1 - x ^ 2 / 2 + x ^ 4 / 24 - x ^ 6 / 720)"
  have c: "\<bar>c\<bar> \<le> 1"
    by (simp add: c_def)
  have "rem = (c / 40320) * x ^ 8"
    unfolding rem_def c_def using e by linarith
  then have "\<bar>rem\<bar> = \<bar>(c / 40320) * x ^ 8\<bar>"
    by (simp only:)
  also have "\<dots> = \<bar>c\<bar> * (\<bar>x\<bar> ^ 8 / 40320)"
    by (simp add: abs_mult power_abs)
  also have "\<dots> \<le> 1 * (\<bar>x\<bar> ^ 8 / 40320)"
    using c by (rule mult_right_mono) simp
  finally show ?thesis
    by (simp add: rem_def)
qed

lemma sin_lower:
  fixes l x :: real
  assumes "0 \<le> l" and "l \<le> x" and "x \<le> pi / 2"
  shows "l - l ^ 3 / 6 + l ^ 5 / 120 - l ^ 7 / 5040 \<le> sin x"
proof -
  have "l - l ^ 3 / 6 + l ^ 5 / 120 - \<bar>l\<bar> ^ 7 / 5040 \<le> sin l"
    using sin_taylor [of l] by linarith
  moreover have "sin l \<le> sin x"
    using assms pi_gt_zero by (intro sin_monotone_2pi_le) linarith+
  ultimately show ?thesis
    using assms(1) by simp
qed

lemma sin_upper:
  fixes h x :: real
  assumes "0 \<le> x" and "x \<le> h" and "h \<le> pi / 2"
  shows "sin x \<le> h - h ^ 3 / 6 + h ^ 5 / 120 + h ^ 7 / 5040"
proof -
  have h0: "0 \<le> h"
    using assms by linarith
  have "sin h \<le> h - h ^ 3 / 6 + h ^ 5 / 120 + \<bar>h\<bar> ^ 7 / 5040"
    using sin_taylor [of h] by linarith
  moreover have "sin x \<le> sin h"
    using assms pi_gt_zero by (intro sin_monotone_2pi_le) linarith+
  ultimately show ?thesis
    using h0 by simp
qed

lemma cos_lower:
  fixes h x :: real
  assumes "0 \<le> x" and "x \<le> h" and "h \<le> pi"
  shows "1 - h ^ 2 / 2 + h ^ 4 / 24 - h ^ 6 / 720 - h ^ 8 / 40320 \<le> cos x"
proof -
  have h0: "0 \<le> h"
    using assms by linarith
  have "1 - h ^ 2 / 2 + h ^ 4 / 24 - h ^ 6 / 720 - \<bar>h\<bar> ^ 8 / 40320 \<le> cos h"
    using cos_taylor [of h] by linarith
  moreover have "cos h \<le> cos x"
    using assms by (intro cos_monotone_0_pi_le) linarith+
  ultimately show ?thesis
    using h0 by simp
qed

lemma cos_upper:
  fixes l x :: real
  assumes "0 \<le> l" and "l \<le> x" and "x \<le> pi"
  shows "cos x \<le> 1 - l ^ 2 / 2 + l ^ 4 / 24 - l ^ 6 / 720 + l ^ 8 / 40320"
proof -
  have "cos l \<le> 1 - l ^ 2 / 2 + l ^ 4 / 24 - l ^ 6 / 720 + \<bar>l\<bar> ^ 8 / 40320"
    using cos_taylor [of l] by linarith
  moreover have "cos x \<le> cos l"
    using assms by (intro cos_monotone_0_pi_le) linarith+
  ultimately show ?thesis
    using assms(1) by simp
qed

lemma pi_upper: "pi < 3.1417"
proof (rule ccontr)
  assume "\<not> pi < 3.1417"
  then have "(0.52361::real) \<le> pi / 6"
    by simp
  then have "0.52361 - 0.52361 ^ 3 / 6 + 0.52361 ^ 5 / 120 - 0.52361 ^ 7 / 5040 \<le> sin (pi / 6)"
    using pi_gt_zero by (intro sin_lower) simp_all
  then show False
    by (simp add: sin_30 power_divide)
qed

lemma pi_lower: "3.14154 < pi"
proof (rule ccontr)
  assume "\<not> 3.14154 < pi"
  then have "pi / 6 \<le> (0.52359::real)"
    by simp
  moreover have "(0.52359::real) \<le> pi / 2"
    using pi_ge_two by simp
  ultimately have "sin (pi / 6) \<le> 0.52359 - 0.52359 ^ 3 / 6 + 0.52359 ^ 5 / 120 + 0.52359 ^ 7 / 5040"
    using pi_gt_zero by (intro sin_upper) simp_all
  then show False
    by (simp add: sin_30 power_divide)
qed

lemma cos_between:
  fixes l h x lo hi :: real
  assumes "0 \<le> l" and "l \<le> x" and "x \<le> h" and "h \<le> 2"
    and "lo \<le> 1 - h ^ 2 / 2 + h ^ 4 / 24 - h ^ 6 / 720 - h ^ 8 / 40320"
    and "1 - l ^ 2 / 2 + l ^ 4 / 24 - l ^ 6 / 720 + l ^ 8 / 40320 \<le> hi"
  shows "lo \<le> cos x \<and> cos x \<le> hi"
proof -
  have x0: "0 \<le> x" and hpi: "h \<le> pi" and xpi: "x \<le> pi"
    using assms pi_ge_two by linarith+
  have "1 - h ^ 2 / 2 + h ^ 4 / 24 - h ^ 6 / 720 - h ^ 8 / 40320 \<le> cos x"
    using x0 assms(3) hpi by (rule cos_lower)
  moreover have "cos x \<le> 1 - l ^ 2 / 2 + l ^ 4 / 24 - l ^ 6 / 720 + l ^ 8 / 40320"
    using assms(1,2) xpi by (rule cos_upper)
  ultimately show ?thesis
    using assms(5,6) by linarith
qed

lemma sin_between:
  fixes l h x lo hi :: real
  assumes "0 \<le> l" and "l \<le> x" and "x \<le> h" and "h \<le> 1"
    and "lo \<le> l - l ^ 3 / 6 + l ^ 5 / 120 - l ^ 7 / 5040"
    and "h - h ^ 3 / 6 + h ^ 5 / 120 + h ^ 7 / 5040 \<le> hi"
  shows "lo \<le> sin x \<and> sin x \<le> hi"
proof -
  have x0: "0 \<le> x" and hpi: "h \<le> pi / 2" and xpi: "x \<le> pi / 2"
    using assms pi_ge_two by linarith+
  have "l - l ^ 3 / 6 + l ^ 5 / 120 - l ^ 7 / 5040 \<le> sin x"
    using assms(1,2) xpi by (rule sin_lower)
  moreover have "sin x \<le> h - h ^ 3 / 6 + h ^ 5 / 120 + h ^ 7 / 5040"
    using x0 assms(3) hpi by (rule sin_upper)
  ultimately show ?thesis
    using assms(5,6) by linarith
qed

lemma prod_between:
  fixes x y l1 h1 l2 h2 lo hi :: real
  assumes "0 \<le> l1" and "l1 \<le> x" and "x \<le> h1" and "0 \<le> l2" and "l2 \<le> y" and "y \<le> h2"
    and "lo \<le> l1 * l2" and "h1 * h2 \<le> hi"
  shows "lo \<le> x * y \<and> x * y \<le> hi"
proof -
  have "l1 * l2 \<le> x * y"
    using assms by (intro mult_mono) linarith+
  moreover have "x * y \<le> h1 * h2"
    using assms by (intro mult_mono) linarith+
  ultimately show ?thesis
    using assms(7,8) by linarith
qed

lemma radians_11: "0.1919 \<le> radians 11 \<and> radians 11 \<le> 0.1920"
  using pi_lower pi_upper by (simp add: radians_def)

lemma radians_12: "0.2094 \<le> radians 12 \<and> radians 12 \<le> 0.2095"
  using pi_lower pi_upper by (simp add: radians_def)

lemma radians_23: "0.4014 \<le> radians 23 \<and> radians 23 \<le> 0.4015"
  using pi_lower pi_upper by (simp add: radians_def)

lemma radians_34: "0.5934 \<le> radians 34 \<and> radians 34 \<le> 0.5935"
  using pi_lower pi_upper by (simp add: radians_def)

lemma cos_11: "0.98162 \<le> cos (radians 11) \<and> cos (radians 11) \<le> 0.98165"
  using radians_11 by (intro cos_between [where l = "0.1919" and h = "0.1920"]) (simp_all add: power_divide)

lemma cos_12: "0.97813 \<le> cos (radians 12) \<and> cos (radians 12) \<le> 0.97816"
  using radians_12 by (intro cos_between [where l = "0.2094" and h = "0.2095"]) (simp_all add: power_divide)

lemma cos_23: "0.92047 \<le> cos (radians 23) \<and> cos (radians 23) \<le> 0.92052"
  using radians_23 by (intro cos_between [where l = "0.4014" and h = "0.4015"]) (simp_all add: power_divide)

lemma cos_34: "0.82898 \<le> cos (radians 34) \<and> cos (radians 34) \<le> 0.82905"
  using radians_34 by (intro cos_between [where l = "0.5934" and h = "0.5935"]) (simp_all add: power_divide)

lemma sin_23: "0.39070 \<le> sin (radians 23) \<and> sin (radians 23) \<le> 0.39081"
  using radians_23 by (intro sin_between [where l = "0.4014" and h = "0.4015"]) (simp_all add: power_divide)

lemma sin_34: "0.55918 \<le> sin (radians 34) \<and> sin (radians 34) \<le> 0.55928"
  using radians_34 by (intro sin_between [where l = "0.5934" and h = "0.5935"]) (simp_all add: power_divide)

lemma sin_11: "0.19072 \<le> sin (radians 11) \<and> sin (radians 11) \<le> 0.19083"
  using radians_11 by (intro sin_between [where l = "0.1919" and h = "0.1920"]) (simp_all add: power_divide)

lemma sin_12: "0.20787 \<le> sin (radians 12) \<and> sin (radians 12) \<le> 0.20798"
  using radians_12 by (intro sin_between [where l = "0.2094" and h = "0.2095"]) (simp_all add: power_divide)

lemma radians_191: "radians 191 = radians 11 + pi"
  by (simp add: radians_def)

lemma radians_348: "radians 348 = 2 * pi - radians 12"
  by (simp add: radians_def)

lemma p_asc_components:
  "p_asc = (- (cos (radians 11) * sin (radians 23)), sin (radians 11) * sin (radians 23),
            - cos (radians 23))"
  by (simp add: p_asc_def compute_los_vector_def asc_azi_def asc_inc_def radians_191)

lemma p_dsc_components:
  "p_dsc = (cos (radians 12) * sin (radians 34), sin (radians 12) * sin (radians 34),
            - cos (radians 34))"
  by (simp add: p_dsc_def compute_los_vector_def dsc_azi_def dsc_inc_def radians_348)

lemma quotient_between:
  fixes N Dn lo hi :: real
  assumes "0 < Dn" and "lo * Dn < N" and "N < hi * Dn"
  shows "lo < N / Dn \<and> N / Dn < hi"
  using assms by (simp add: pos_less_divide_eq pos_divide_less_eq)

subsection \<open>The loop on the five landslides\<close>

lemma landslide_loop_five:
  assumes "linalg_inv (matmul_PT_P [(a, b), (c, d)]) = Some Pinv"
    and "is_inverse Pinv (matmul_PT_P [(a, b), (c, d)])"
  shows "landslide_loop linalg_inv [(a, b), (c, d)] [x1, x2, x3, x4, x5] [y1, y2, y3, y4, y5]
           = Inr [((d * x1 - b * y1) / (a * d - b * c), (a * y1 - c * x1) / (a * d - b * c)),
                  ((d * x2 - b * y2) / (a * d - b * c), (a * y2 - c * x2) / (a * d - b * c)),
                  ((d * x3 - b * y3) / (a * d - b * c), (a * y3 - c * x3) / (a * d - b * c)),
                  ((d * x4 - b * y4) / (a * d - b * c), (a * y4 - c * x4) / (a * d - b * c)),
                  ((d * x5 - b * y5) / (a * d - b * c), (a * y5 - c * x5) / (a * d - b * c))]"
proof -
  have body: "u Pinv [(a, b), (c, d)] [x, y]
                = Inr ((d * x - b * y) / (a * d - b * c), (a * y - c * x) / (a * d - b * c))" for x y
    using assms(2) by (rule u_two)
  have idx: "[0..<5] = [0, 1, 2, 3, 4]"
    by (simp add: upt_rec)
  show ?thesis
    by (simp add: landslide_loop_def PTPinv_def assms(1) idx r_at_def body)
qed

lemma decompose_many_five:
  assumes "linalg_inv (matmul_PT_P [(a, b), (c, d)]) = Some Pinv"
    and "is_inverse Pinv (matmul_PT_P [(a, b), (c, d)])"
  shows "decompose_many linalg_inv [(a, b), (c, d)] [[x1, y1], [x2, y2], [x3, y3], [x4, y4], [x5, y5]]
           = Inr [((d * x1 - b * y1) / (a * d - b * c), (a * y1 - c * x1) / (a * d - b * c)),
                  ((d * x2 - b * y2) / (a * d - b * c), (a * y2 - c * x2) / (a * d - b * c)),
                  ((d * x3 - b * y3) / (a * d - b * c), (a * y3 - c * x3) / (a * d - b * c)),
                  ((d * x4 - b * y4) / (a * d - b * c), (a * y4 - c * x4) / (a * d - b * c)),
                  ((d * x5 - b * y5) / (a * d - b * c), (a * y5 - c * x5) / (a * d - b * c))]"
proof -
  have body: "u Pinv [(a, b), (c, d)] [x, y]
                = Inr ((d * x - b * y) / (a * d - b * c), (a * y - c * x) / (a * d - b * c))" for x y
    using assms(2) by (rule u_two)
  show ?thesis
    by (simp add: decompose_many_def PTPinv_def assms(1) body)
qed

lemma los_vectors_approx:
  "\<bar>east p_asc - (- 0.3836)\<bar> \<le> 0.0001 \<and> \<bar>north p_asc - 0.0746\<bar> \<le> 0.0001
   \<and> \<bar>vertical p_asc - (- 0.9205)\<bar> \<le> 0.0001
   \<and> \<bar>east p_dsc - 0.5470\<bar> \<le> 0.0001 \<and> \<bar>north p_dsc - 0.1163\<bar> \<le> 0.0001
   \<and> \<bar>vertical p_dsc - (- 0.8290)\<bar> \<le> 0.0001"
proof -
  have A: "0.38351 \<le> cos (radians 11) * sin (radians 23) \<and> cos (radians 11) * sin (radians 23) \<le> 0.38364"
    using cos_11 sin_23
    by (intro prod_between [where ?l1.0 = "0.98162" and ?h1.0 = "0.98165" and ?l2.0 = "0.39070" and ?h2.0 = "0.39081"])
      simp_all
  have C: "0.54695 \<le> cos (radians 12) * sin (radians 34) \<and> cos (radians 12) * sin (radians 34) \<le> 0.54707"
    using cos_12 sin_34
    by (intro prod_between [where ?l1.0 = "0.97813" and ?h1.0 = "0.97816" and ?l2.0 = "0.55918" and ?h2.0 = "0.55928"])
      simp_all
  have Na: "0.07451 \<le> sin (radians 11) * sin (radians 23) \<and> sin (radians 11) * sin (radians 23) \<le> 0.07458"
    using sin_11 sin_23
    by (intro prod_between [where ?l1.0 = "0.19072" and ?h1.0 = "0.19083" and ?l2.0 = "0.39070" and ?h2.0 = "0.39081"])
      simp_all
  have Nd: "0.11623 \<le> sin (radians 12) * sin (radians 34) \<and> sin (radians 12) * sin (radians 34) \<le> 0.11632"
    using sin_12 sin_34
    by (intro prod_between [where ?l1.0 = "0.20787" and ?h1.0 = "0.20798" and ?l2.0 = "0.55918" and ?h2.0 = "0.55928"])
      simp_all
  show ?thesis
    unfolding p_asc_components p_dsc_components east_def north_def vertical_def fst_conv snd_conv
    using A C Na Nd cos_23 cos_34 by (simp only: abs_le_iff) (intro conjI; simp; linarith)
qed

lemma landslide_velocities_approx:
  "\<exists>Pinv u1 u2 u3 u4 u5.
     is_inverse Pinv (matmul_PT_P P)
     \<and> landslide_loop (returning Pinv) P r_asc_all r_dsc_all = Inr [u1, u2, u3, u4, u5]
     \<and> decompose_many (returning Pinv) P [[-7.2, 12.2], [-4.3, 2.7], [-4.6, 5.3], [-2.8, 5.0], [-12.1, 12.0]]
          = Inr [u1, u2, u3, u4, u5]
     \<and> 20.8 < fst u1 \<and> fst u1 < 21.0 \<and> -1.0 < snd u1 \<and> snd u1 < -0.8
     \<and> 7.3 < fst u2 \<and> fst u2 < 7.5 \<and> 1.5 < snd u2 \<and> snd u2 < 1.7
     \<and> 10.5 < fst u3 \<and> fst u3 < 10.7 \<and> 0.5 < snd u3 \<and> snd u3 < 0.7
     \<and> 8.3 < fst u4 \<and> fst u4 < 8.5 \<and> -0.6 < snd u4 \<and> snd u4 < -0.4
     \<and> 25.6 < fst u5 \<and> fst u5 < 25.8 \<and> 2.4 < snd u5 \<and> snd u5 < 2.6"
proof -
  define A where "A = cos (radians 11) * sin (radians 23)"
  define B where "B = cos (radians 23)"
  define C where "C = cos (radians 12) * sin (radians 34)"
  define Dd where "Dd = cos (radians 34)"
  define pp where "pp = A * Dd"
  define qq where "qq = B * C"
  have A: "0.38351 \<le> A \<and> A \<le> 0.38364"
    unfolding A_def using cos_11 sin_23
    by (intro prod_between [where ?l1.0 = "0.98162" and ?h1.0 = "0.98165" and ?l2.0 = "0.39070" and ?h2.0 = "0.39081"])
      simp_all
  have B: "0.92047 \<le> B \<and> B \<le> 0.92052"
    unfolding B_def by (rule cos_23)
  have C: "0.54695 \<le> C \<and> C \<le> 0.54707"
    unfolding C_def using cos_12 sin_34
    by (intro prod_between [where ?l1.0 = "0.97813" and ?h1.0 = "0.97816" and ?l2.0 = "0.55918" and ?h2.0 = "0.55928"])
      simp_all
  have Dd: "0.82898 \<le> Dd \<and> Dd \<le> 0.82905"
    unfolding Dd_def by (rule cos_34)
  have pp: "0.31792 \<le> pp \<and> pp \<le> 0.31806"
    unfolding pp_def using A Dd
    by (intro prod_between [where ?l1.0 = "0.38351" and ?h1.0 = "0.38364" and ?l2.0 = "0.82898" and ?h2.0 = "0.82905"])
      simp_all
  have qq: "0.50345 \<le> qq \<and> qq \<le> 0.50359"
    unfolding qq_def using B C
    by (intro prod_between [where ?l1.0 = "0.92047" and ?h1.0 = "0.92052" and ?l2.0 = "0.54695" and ?h2.0 = "0.54707"])
      simp_all
  have pos: "0 < pp + qq"
    using pp qq by (simp; linarith)
  define a where "a = - A"
  define b where "b = - B"
  define c where "c = C"
  define d where "d = - Dd"
  have D: "a * d - b * c = pp + qq"
    by (simp add: a_def b_def c_def d_def pp_def qq_def)
  have Dnz: "a * d - b * c \<noteq> 0"
    using pos by (simp only: D)
  have "det22 (matmul_PT_P [(a, b), (c, d)]) \<noteq> 0"
    using Dnz by (simp add: det_PT_P_two)
  then obtain Pinv where inv: "is_inverse Pinv (matmul_PT_P [(a, b), (c, d)])"
    using inverse_exists by blast
  have ret: "returning Pinv (matmul_PT_P [(a, b), (c, d)]) = Some Pinv"
    by (simp add: returning_def)
  have Pm: "P = [(a, b), (c, d)]"
    by (simp add: P_def p_hat_def p_asc_components p_dsc_components east_def vertical_def
        a_def b_def c_def d_def A_def B_def C_def Dd_def)
  define ue where "ue = (\<lambda>x y. (d * x - b * y) / (a * d - b * c))"
  define uv where "uv = (\<lambda>x y. (a * y - c * x) / (a * d - b * c))"
  have ue: "ue x y = (B * y - Dd * x) / (pp + qq)" for x y
    unfolding ue_def D by (simp add: b_def d_def)
  have uv: "uv x y = (- (A * y) - C * x) / (pp + qq)" for x y
    unfolding uv_def D by (simp add: a_def c_def)
  have loop: "landslide_loop (returning Pinv) P r_asc_all r_dsc_all
                = Inr [(ue (-7.2) 12.2, uv (-7.2) 12.2), (ue (-4.3) 2.7, uv (-4.3) 2.7),
                       (ue (-4.6) 5.3, uv (-4.6) 5.3), (ue (-2.8) 5.0, uv (-2.8) 5.0),
                       (ue (-12.1) 12.0, uv (-12.1) 12.0)]"
    unfolding Pm r_asc_all_def r_dsc_all_def ue_def uv_def
    using ret inv by (rule landslide_loop_five)
  have many: "decompose_many (returning Pinv) P [[-7.2, 12.2], [-4.3, 2.7], [-4.6, 5.3], [-2.8, 5.0], [-12.1, 12.0]]
                = Inr [(ue (-7.2) 12.2, uv (-7.2) 12.2), (ue (-4.3) 2.7, uv (-4.3) 2.7),
                       (ue (-4.6) 5.3, uv (-4.6) 5.3), (ue (-2.8) 5.0, uv (-2.8) 5.0),
                       (ue (-12.1) 12.0, uv (-12.1) 12.0)]"
    unfolding Pm ue_def uv_def
    using ret inv by (rule decompose_many_five)
  have e1: "20.8 < ue (-7.2) 12.2 \<and> ue (-7.2) 12.2 < 21.0"
    unfolding ue by (insert B Dd pp qq, (rule quotient_between [OF pos]; (clarsimp; argo)))
  have v1: "-1.0 < uv (-7.2) 12.2 \<and> uv (-7.2) 12.2 < -0.8"
    unfolding uv by (insert A C pp qq, (rule quotient_between [OF pos]; (clarsimp; argo)))
  have e2: "7.3 < ue (-4.3) 2.7 \<and> ue (-4.3) 2.7 < 7.5"
    unfolding ue by (insert B Dd pp qq, (rule quotient_between [OF pos]; (clarsimp; argo)))
  have v2: "1.5 < uv (-4.3) 2.7 \<and> uv (-4.3) 2.7 < 1.7"
    unfolding uv by (insert A C pp qq, (rule quotient_between [OF pos]; (clarsimp; argo)))
  have e3: "10.5 < ue (-4.6) 5.3 \<and> ue (-4.6) 5.3 < 10.7"
    unfolding ue by (insert B Dd pp qq, (rule quotient_between [OF pos]; (clarsimp; argo)))
  have v3: "0.5 < uv (-4.6) 5.3 \<and> uv (-4.6) 5.3 < 0.7"
    unfolding uv by (insert A C pp qq, (rule quotient_between [OF pos]; (clarsimp; argo)))
  have e4: "8.3 < ue (-2.8) 5.0 \<and> ue (-2.8) 5.0 < 8.5"
    unfolding ue by (insert B Dd pp qq, (rule quotient_between [OF pos]; (clarsimp; argo)))
  have v4: "-0.6 < uv (-2.8) 5.0 \<and> uv (-2.8) 5.0 < -0.4"
    unfolding uv by (insert A C pp qq, (rule quotient_between [OF pos]; (clarsimp; argo)))
  have e5: "25.6 < ue (-12.1) 12.0 \<and> ue (-12.1) 12.0 < 25.8"
    unfolding ue by (insert B Dd pp qq, (rule quotient_between [OF pos]; (clarsimp; argo)))
  have v5: "2.4 < uv (-12.1) 12.0 \<and> uv (-12.1) 12.0 < 2.6"
    unfolding uv by (insert A C pp qq, (rule quotient_between [OF pos]; (clarsimp; argo)))
  define u1 where "u1 = (ue (-7.2) 12.2, uv (-7.2) 12.2)"
  define u2 where "u2 = (ue (-4.3) 2.7, uv (-4.3) 2.7)"
  define u3 where "u3 = (ue (-4.6) 5.3, uv (-4.6) 5.3)"
  define u4 where "u4 = (ue (-2.8) 5.0, uv (-2.8) 5.0)"
  define u5 where "u5 = (ue (-12.1) 12.0, uv (-12.1) 12.0)"
  have loop': "landslide_loop (returning Pinv) P r_asc_all r_dsc_all = Inr [u1, u2, u3, u4, u5]"
    using loop by (simp only: u1_def u2_def u3_def u4_def u5_def)
  have many': "decompose_many (returning Pinv) P [[-7.2, 12.2], [-4.3, 2.7], [-4.6, 5.3], [-2.8, 5.0], [-12.1, 12.0]]
                 = Inr [u1, u2, u3, u4, u5]"
    using many by (simp only: u1_def u2_def u3_def u4_def u5_def)
  have b1: "20.8 < fst u1 \<and> fst u1 < 21.0 \<and> -1.0 < snd u1 \<and> snd u1 < -0.8"
    unfolding u1_def fst_conv snd_conv using e1 v1 by blast
  have b2: "7.3 < fst u2 \<and> fst u2 < 7.5 \<and> 1.5 < snd u2 \<and> snd u2 < 1.7"
    unfolding u2_def fst_conv snd_conv using e2 v2 by blast
  have b3: "10.5 < fst u3 \<and> fst u3 < 10.7 \<and> 0.5 < snd u3 \<and> snd u3 < 0.7"
    unfolding u3_def fst_conv snd_conv using e3 v3 by blast
  have b4: "8.3 < fst u4 \<and> fst u4 < 8.5 \<and> -0.6 < snd u4 \<and> snd u4 < -0.4"
    unfolding u4_def fst_conv snd_conv using e4 v4 by blast
  have b5: "25.6 < fst u5 \<and> fst u5 < 25.8 \<and> 2.4 < snd u5 \<and> snd u5 < 2.6"
    unfolding u5_def fst_conv snd_conv using e5 v5 by blast
  have inv': "is_inverse Pinv (matmul_PT_P P)"
    using inv by (simp only: Pm)
  from inv' loop' many' b1 b2 b3 b4 b5 show ?thesis
    by blast
qed

text \<open>
  Claim C4, the code at the documented scenario.  The line-of-sight vectors of azimuth
  191 degrees, incidence 23 degrees and of azimuth 348 degrees, incidence 34 degrees are
  \<open>[-0.3836, 0.0746, -0.9205]\<close> and \<open>[0.5470, 0.1163, -0.8290]\<close> within \<open>0.0001\<close>, as
  claimed.  With their east and vertical components as the rows of the design matrix,
  \<open>P\<^sup>T P\<close> has an inverse, and with the inversion returning it the loop over the five
  observation pairs (and \<open>decompose_many\<close> on the same pairs) returns the velocities \<open>(20.9, -0.9)\<close>, \<open>(7.4, 1.6)\<close>, \<open>(10.6, 0.6)\<close>, \<open>(8.4, -0.5)\<close>
  and \<open>(25.7, 2.5)\<close>, each within \<open>0.1\<close>; the claim and the output recorded in the
  notebook give \<open>(-20.4, -4.8)\<close>, \<open>(-7.5, 0.2)\<close>, \<open>(-10.5, -1.4)\<close>, \<open>(-8.2, -2.0)\<close> and
  \<open>(-25.7, -2.3)\<close>.
\<close>

theorem landslide_scenario_as_coded:
  "(\<bar>east p_asc - (- 0.3836)\<bar> \<le> 0.0001 \<and> \<bar>north p_asc - 0.0746\<bar> \<le> 0.0001
    \<and> \<bar>vertical p_asc - (- 0.9205)\<bar> \<le> 0.0001
    \<and> \<bar>east p_dsc - 0.5470\<bar> \<le> 0.0001 \<and> \<bar>north p_dsc - 0.1163\<bar> \<le> 0.0001
    \<and> \<bar>vertical p_dsc - (- 0.8290)\<bar> \<le> 0.0001)
   \<and> (\<exists>Pinv u1 u2 u3 u4 u5.
     is_inverse Pinv (matmul_PT_P P)
     \<and> landslide_loop (returning Pinv) P r_asc_all r_dsc_all = Inr [u1, u2, u3, u4, u5]
     \<and> decompose_many (returning Pinv) P [[-7.2, 12.2], [-4.3, 2.7], [-4.6, 5.3], [-2.8, 5.0], [-12.1, 12.0]]
          = Inr [u1, u2, u3, u4, u5]
     \<and> 20.8 < fst u1 \<and> fst u1 < 21.0 \<and> -1.0 < snd u1 \<and> snd u1 < -0.8
     \<and> 7.3 < fst u2 \<and> fst u2 < 7.5 \<and> 1.5 < snd u2 \<and> snd u2 < 1.7
     \<and> 10.5 < fst u3 \<and> fst u3 < 10.7 \<and> 0.5 < snd u3 \<and> snd u3 < 0.7
     \<and> 8.3 < fst u4 \<and> fst u4 < 8.5 \<and> -0.6 < snd u4 \<and> snd u4 < -0.4
     \<and> 25.6 < fst u5 \<and> fst u5 < 25.8 \<and> 2.4 < snd u5 \<and> snd u5 < 2.6)"
  using los_vectors_approx landslide_velocities_approx by (rule conjI)

end
